theory Spec2Isabelle
  imports Main "HOL-Library.AList"
begin

section \<open>Python strings\<close>

text \<open>
  A Python \<open>str\<close> is modelled as a \<open>string\<close>, one \<open>char\<close> per code point, so the model
  covers text whose code points are below 256. The helpers below are the \<open>str\<close> methods
  and the regular expressions that \<open>api_client.py\<close> applies to lines.
\<close>

definition startswith :: "string \<Rightarrow> string \<Rightarrow> bool" where
  "startswith s p = (take (length p) s = p)"

definition endswith :: "string \<Rightarrow> string \<Rightarrow> bool" where
  "endswith s p = (take (length p) (rev s) = rev p)"

text \<open>
  \<open>str.isspace\<close> for one character; the regular expression class \<open>\s\<close> of a \<open>str\<close>
  pattern is the same set. Below 256 these are the code points 9 to 13, 28 to 32, 133
  and 160.
\<close>

definition isspace :: "char \<Rightarrow> bool" where
  "isspace c = (c \<in> set [CHR 0x09, CHR 0x0A, CHR 0x0B, CHR 0x0C, CHR 0x0D,
                          CHR 0x1C, CHR 0x1D, CHR 0x1E, CHR 0x1F, CHR 0x20,
                          CHR 0x85, CHR 0xA0])"

definition strip :: "string \<Rightarrow> string" where
  "strip s = rev (dropWhile isspace (rev (dropWhile isspace s)))"

text \<open>\<open>re.sub(r'^data:\s*', '', s)\<close>: the pattern is anchored, so it matches at most once.\<close>

definition sub_data_prefix :: "string \<Rightarrow> string" where
  "sub_data_prefix s =
     (if startswith s ''data:'' then dropWhile isspace (drop 5 s) else s)"

text \<open>
  \<open>re.sub(r'^data:\s*data:', 'data:', s)\<close>: the greedy \<open>\s*\<close> takes every white space
  character after the first prefix; giving some back cannot help, since the next
  character would be white space and not \<open>d\<close>.
\<close>

definition sub_double_prefix :: "string \<Rightarrow> string" where
  "sub_double_prefix s =
     (let r = dropWhile isspace (drop 5 s)
      in if startswith s ''data:'' \<and> startswith r ''data:''
         then ''data:'' @ drop 5 r else s)"

text \<open>\<open>s.find(c)\<close> for a one-character \<open>c\<close>: the first index, or \<open>-1\<close>.\<close>

fun find_chr :: "char \<Rightarrow> string \<Rightarrow> int" where
  "find_chr c [] = - 1"
| "find_chr c (x # xs) =
     (if x = c then 0 else (let i = find_chr c xs in if i < 0 then - 1 else i + 1))"

section \<open>The line loop\<close>

text \<open>
  Both relay functions run the same two nested loops:
  \<^verbatim>\<open>
  async for chunk in response.aiter_text():
      buffer += chunk
      while "\n" in buffer:
          line, buffer = buffer.split("\n", 1)
          ... body(line) ...
  \<close>
  \<open>split_newline\<close> is \<open>buffer.split("\n", 1)\<close> on a buffer that holds a newline,
  \<open>drain\<close> is the \<open>while\<close> loop and \<open>for_chunks\<close> the \<open>for\<close> loop; the body is the
  parameter \<open>body\<close>, a function from the loop's variables and the line to the loop's
  variables.
\<close>

definition split_newline :: "string \<Rightarrow> string \<times> string" where
  "split_newline buffer =
     (takeWhile (\<lambda>c. c \<noteq> CHR ''\<newline>'') buffer,
      tl (dropWhile (\<lambda>c. c \<noteq> CHR ''\<newline>'') buffer))"

function drain :: "('s \<Rightarrow> string \<Rightarrow> 's) \<Rightarrow> string \<Rightarrow> 's \<Rightarrow> string \<times> 's" where
  "drain body buffer st =
     (if CHR ''\<newline>'' \<in> set buffer
      then drain body (snd (split_newline buffer)) (body st (fst (split_newline buffer)))
      else (buffer, st))"
  by pat_completeness auto
termination
proof (relation "measure (\<lambda>(body, buffer, st). length buffer)")
  show "wf (measure (\<lambda>(body :: 's \<Rightarrow> string \<Rightarrow> 's, buffer :: string, st :: 's). length buffer))"
    by simp
next
  fix body :: "'s \<Rightarrow> string \<Rightarrow> 's" and buffer :: string and st :: 's
  assume nl: "CHR ''\<newline>'' \<in> set buffer"
  then have "dropWhile (\<lambda>c. c \<noteq> CHR ''\<newline>'') buffer \<noteq> []"
    by simp
  then have "length (tl (dropWhile (\<lambda>c. c \<noteq> CHR ''\<newline>'') buffer))
               < length (dropWhile (\<lambda>c. c \<noteq> CHR ''\<newline>'') buffer)"
    by (cases "dropWhile (\<lambda>c. c \<noteq> CHR ''\<newline>'') buffer") simp_all
  also have "\<dots> \<le> length buffer"
    by (rule length_dropWhile_le)
  finally show "((body, snd (split_newline buffer), body st (fst (split_newline buffer))),
                 (body, buffer, st))
                \<in> measure (\<lambda>(body, buffer, st). length buffer)"
    by (simp add: split_newline_def)
qed

declare drain.simps [simp del]

definition for_chunks :: "('s \<Rightarrow> string \<Rightarrow> 's) \<Rightarrow> string list \<Rightarrow> 's \<Rightarrow> string \<times> 's" where
  "for_chunks body chunks st0 =
     fold (\<lambda>chunk (buffer, st). drain body (buffer @ chunk) st) chunks ([], st0)"

section \<open>Streaming mode: \<open>handle_stream_response.generate\<close>\<close>

text \<open>
  The generator's variables: the frames yielded so far, the local variable
  \<open>done_processed\<close> (assigned in the \<open>[DONE]\<close> branch, never read), and the attribute
  \<open>done_processed\<close> of the function object \<open>generate\<close>, which is what the test
  \<open>hasattr(generate, 'done_processed') and generate.done_processed\<close> reads. The function
  object is made anew by each call of \<open>handle_stream_response\<close> and nothing assigns the
  attribute, so it starts absent (\<open>None\<close>) and stays so.
\<close>

record gen_state =
  yielded :: "string list"
  done_processed :: bool
  generate_done_processed :: "bool option"

text \<open>Lines 118 to 124: the content of a data line, with a doubled prefix repaired.\<close>

definition stream_content :: "string \<Rightarrow> string" where
  "stream_content line =
     (if startswith line ''data: data:'' then sub_double_prefix line else line)"

text \<open>
  Lines 98 to 138, the body of the \<open>while\<close> loop. Nothing in the \<open>try\<close> block can raise on
  a \<open>str\<close>, so its handler has no branch here.
\<close>

definition stream_line :: "gen_state \<Rightarrow> string \<Rightarrow> gen_state" where
  "stream_line st line =
     (if startswith line ''data: '' then
        if line = ''data: [DONE]'' then
          st\<lparr>yielded := yielded st @ [''data: [DONE]\<newline>\<newline>''], done_processed := True\<rparr>
        else if (case generate_done_processed st of None \<Rightarrow> False | Some b \<Rightarrow> b) then st
        else st\<lparr>yielded := yielded st @ [stream_content line @ ''\<newline>\<newline>'']\<rparr>
      else st)"

definition gen_init :: gen_state where
  "gen_init = \<lparr>yielded = [], done_processed = False, generate_done_processed = None\<rparr>"

text \<open>The frames the generator yields, in order, for the chunks \<open>aiter_text\<close> delivers.\<close>

definition generate :: "string list \<Rightarrow> string list" where
  "generate chunks = yielded (snd (for_chunks stream_line chunks gen_init))"

section \<open>Python values and exceptions\<close>

text \<open>
  The values \<open>json.loads\<close> returns: \<open>None\<close>, \<open>bool\<close>, \<open>int\<close>, \<open>float\<close> (kept as its
  lexeme), \<open>str\<close>, \<open>list\<close> and \<open>dict\<close>. A \<open>dict\<close> is an association list in insertion
  order with distinct keys.
\<close>

datatype pyval =
    PyNone
  | PyBool bool
  | PyInt int
  | PyFloat string
  | PyStr string
  | PyList "pyval list"
  | PyDict "(string \<times> pyval) list"

text \<open>
  The exceptions the code raises, catches or lets through. All of them derive from
  \<open>Exception\<close>, \<open>HTTPException\<close> included. \<open>OtherError\<close> stands for any other exception
  (a transport failure of the HTTP client, for instance).
\<close>

datatype exn =
    HTTPException int string
  | JSONDecodeError
  | TypeError
  | AttributeError
  | KeyError
  | IndexError
  | RecursionError
  | ValueError
  | UnicodeDecodeError
  | OtherError string

definition then_do :: "exn + 'a \<Rightarrow> ('a \<Rightarrow> exn + 'b) \<Rightarrow> exn + 'b" where
  "then_do r f = (case r of Inl e \<Rightarrow> Inl e | Inr v \<Rightarrow> f v)"

text \<open>\<open>p in s\<close> for two strings: \<open>p\<close> occurs in \<open>s\<close>.\<close>

fun str_contains :: "string \<Rightarrow> string \<Rightarrow> bool" where
  "str_contains [] p = (p = [])"
| "str_contains (c # cs) p = (startswith (c # cs) p \<or> str_contains cs p)"

text \<open>\<open>key in v\<close> for a string \<open>key\<close>.\<close>

definition py_contains :: "string \<Rightarrow> pyval \<Rightarrow> exn + bool" where
  "py_contains key v =
     (case v of
        PyDict d \<Rightarrow> Inr (map_of d key \<noteq> None)
      | PyList xs \<Rightarrow> Inr (PyStr key \<in> set xs)
      | PyStr s \<Rightarrow> Inr (str_contains s key)
      | _ \<Rightarrow> Inl TypeError)"

text \<open>\<open>v[key]\<close> for a string \<open>key\<close>.\<close>

definition py_getitem :: "pyval \<Rightarrow> string \<Rightarrow> exn + pyval" where
  "py_getitem v key =
     (case v of
        PyDict d \<Rightarrow> (case map_of d key of None \<Rightarrow> Inl KeyError | Some x \<Rightarrow> Inr x)
      | _ \<Rightarrow> Inl TypeError)"

text \<open>\<open>len(v)\<close>.\<close>

definition py_len :: "pyval \<Rightarrow> exn + nat" where
  "py_len v =
     (case v of
        PyList xs \<Rightarrow> Inr (length xs)
      | PyStr s \<Rightarrow> Inr (length s)
      | PyDict d \<Rightarrow> Inr (length d)
      | _ \<Rightarrow> Inl TypeError)"

text \<open>\<open>v[0]\<close>. The keys of a \<open>dict\<close> from JSON are strings, so \<open>0\<close> is never one.\<close>

definition py_getitem0 :: "pyval \<Rightarrow> exn + pyval" where
  "py_getitem0 v =
     (case v of
        PyList xs \<Rightarrow> (case xs of [] \<Rightarrow> Inl IndexError | x # _ \<Rightarrow> Inr x)
      | PyStr s \<Rightarrow> (case s of [] \<Rightarrow> Inl IndexError | c # _ \<Rightarrow> Inr (PyStr [c]))
      | PyDict d \<Rightarrow> Inl KeyError
      | _ \<Rightarrow> Inl TypeError)"

text \<open>\<open>v.get(key, default)\<close>: only a \<open>dict\<close> has the method.\<close>

definition py_get :: "pyval \<Rightarrow> string \<Rightarrow> pyval \<Rightarrow> exn + pyval" where
  "py_get v key dflt =
     (case v of
        PyDict d \<Rightarrow> Inr (case map_of d key of None \<Rightarrow> dflt | Some x \<Rightarrow> x)
      | _ \<Rightarrow> Inl AttributeError)"

text \<open>\<open>full_content += content\<close> with \<open>full_content\<close> a \<open>str\<close>.\<close>

definition py_str_add :: "string \<Rightarrow> pyval \<Rightarrow> exn + string" where
  "py_str_add full_content content =
     (case content of PyStr c \<Rightarrow> Inr (full_content @ c) | _ \<Rightarrow> Inl TypeError)"

section \<open>Buffered mode: \<open>handle_non_stream_response\<close>\<close>

text \<open>
  \<open>json.loads\<close> belongs to the standard library; the model takes it as the parameter
  \<open>loads\<close>, which returns the parsed value or the exception raised.
\<close>

text \<open>
  Lines 233 to 236 (and again 253 to 256): the delta of the first choice is appended to
  \<open>full_content\<close>. Any of the operations may raise.
\<close>

definition accumulate_delta :: "pyval \<Rightarrow> string \<Rightarrow> exn + string" where
  "accumulate_delta data full_content =
     then_do (py_contains ''choices'' data) (\<lambda>has_choices.
       if has_choices then
         then_do (py_getitem data ''choices'') (\<lambda>choices.
         then_do (py_len choices) (\<lambda>n.
           if n > 0 then
             then_do (py_getitem0 choices) (\<lambda>choice.
             then_do (py_get choice ''delta'' (PyDict [])) (\<lambda>delta.
             then_do (py_get delta ''content'' (PyStr [])) (\<lambda>content.
               py_str_add full_content content)))
           else Inr full_content))
       else Inr full_content)"

text \<open>
  Lines 193 to 198: the prefix is removed with \<open>re.sub\<close>, and removed once more when
  the rest starts with \<open>data:\<close> again. The flag tells whether the branch of line 196
  was taken.
\<close>

definition strip_prefixes :: "string \<Rightarrow> bool \<times> string" where
  "strip_prefixes line =
     (let json_str = sub_data_prefix line in
      if startswith json_str ''data:'' then (True, sub_data_prefix json_str)
      else (False, json_str))"

text \<open>Lines 207 to 213: the brace repair.\<close>

definition brace_repair :: "string \<Rightarrow> string" where
  "brace_repair json_str0 =
     (let json_str = (if \<not> startswith (strip json_str0) ''{''
                      then ''{'' @ json_str0 else json_str0)
      in if \<not> endswith (strip json_str) ''}'' then json_str @ ''}'' else json_str)"

text \<open>
  Lines 193 to 215 together: the \<open>[DONE]\<close> test and the brace repair sit inside the branch
  of line 196, so only a line with a doubled prefix reaches them. \<open>None\<close> is the
  \<open>continue\<close> of line 203.
\<close>

definition prefix_repair :: "string \<Rightarrow> string option" where
  "prefix_repair line =
     (case strip_prefixes line of
        (True, json_str) \<Rightarrow>
          if strip json_str = ''[DONE]'' then None else Some (brace_repair json_str)
      | (False, json_str) \<Rightarrow> Some json_str)"

text \<open>Lines 218 to 228. \<open>None\<close> is the \<open>continue\<close> of line 222.\<close>

definition final_repair :: "string \<Rightarrow> string option" where
  "final_repair json_str0 =
     (let json_str = strip json_str0 in
      if endswith json_str '']'' then
        if json_str = ''DONE]'' then None
        else if startswith json_str ''{'' \<and> \<not> endswith json_str ''}''
        then Some (json_str @ ''}'')
        else Some json_str
      else Some json_str)"

text \<open>The string handed to \<open>json.loads\<close> at line 232, if the line gets that far.\<close>

definition normalize_payload :: "string \<Rightarrow> string option" where
  "normalize_payload line =
     (case prefix_repair line of None \<Rightarrow> None | Some json_str \<Rightarrow> final_repair json_str)"

text \<open>
  Lines 230 to 261: parse and accumulate; on \<open>JSONDecodeError\<close> retry once from the
  first \<open>{\<close>; a second \<open>JSONDecodeError\<close> is the \<open>continue\<close> of line 261. Any other
  exception leaves the block.
\<close>

definition extract_delta :: "(string \<Rightarrow> exn + pyval) \<Rightarrow> string \<Rightarrow> string \<Rightarrow> exn + string" where
  "extract_delta loads json_str full_content =
     (case loads json_str of
        Inr data \<Rightarrow> accumulate_delta data full_content
      | Inl e \<Rightarrow>
          if e = JSONDecodeError then
            let json_str = strip json_str;
                json_str =
                  (if \<not> startswith json_str ''{'' then
                     let start_idx = find_chr CHR ''{'' json_str in
                     if start_idx \<ge> 0 then drop (nat start_idx) json_str else json_str
                   else json_str)
            in case loads json_str of
                 Inr data \<Rightarrow> accumulate_delta data full_content
               | Inl e' \<Rightarrow> if e' = JSONDecodeError then Inr full_content else Inl e'
          else Inl e)"

text \<open>
  Lines 181 to 264, the body of the \<open>while\<close> loop; its variable is \<open>full_content\<close>. The
  handler \<open>except Exception\<close> of line 262 skips the line.
\<close>

definition buffered_line :: "(string \<Rightarrow> exn + pyval) \<Rightarrow> string \<Rightarrow> string \<Rightarrow> string" where
  "buffered_line loads full_content line =
     (if startswith line ''data: '' then
        if line = ''data: [DONE]'' then full_content
        else
          case normalize_payload line of
            None \<Rightarrow> full_content
          | Some json_str \<Rightarrow>
              (case extract_delta loads json_str full_content of
                 Inl e \<Rightarrow> full_content
               | Inr full_content' \<Rightarrow> full_content')
      else full_content)"

text \<open>
  The upstream response: its status, its body as received (\<open>response.content\<close>, bytes) and
  the chunks of decoded text that \<open>aiter_text\<close> delivers. \<open>response.text\<close> is the
  concatenation of the chunks. How the client decodes the body into text is not modelled:
  the two fields are independent inputs.
\<close>

record response =
  status_code :: int
  content :: string
  aiter_text :: "string list"

definition text_of :: "response \<Rightarrow> string" where
  "text_of r = concat (aiter_text r)"

text \<open>\<open>full_content\<close> when the loop of lines 170 to 264 ends.\<close>

definition accumulated :: "(string \<Rightarrow> exn + pyval) \<Rightarrow> response \<Rightarrow> string" where
  "accumulated loads r = snd (for_chunks (buffered_line loads) (aiter_text r) [])"

text \<open>
  \<open>response.json()\<close> at line 272 is \<open>json.loads\<close> of the body bytes, not of the decoded
  text. On bytes the decoder first detects the encoding and decodes, which can raise
  \<open>UnicodeDecodeError\<close> and treats a byte order mark differently from the text decoder, so
  it is a parameter of its own, \<open>loads_bytes\<close>.
\<close>

definition response_json :: "(string \<Rightarrow> exn + pyval) \<Rightarrow> response \<Rightarrow> exn + pyval" where
  "response_json loads_bytes r = loads_bytes (content r)"

text \<open>
  Lines 165 to 280. The handler of line 274 catches \<open>JSONDecodeError\<close> only: any other
  exception of \<open>response.json()\<close>, and the \<open>AttributeError\<close> of \<open>data.get\<close> on a value that
  is not a \<open>dict\<close>, leave the function.
\<close>

definition handle_non_stream_response ::
  "(string \<Rightarrow> exn + pyval) \<Rightarrow> (string \<Rightarrow> exn + pyval) \<Rightarrow> response \<Rightarrow> exn + pyval" where
  "handle_non_stream_response loads loads_bytes r =
     (let full_content = accumulated loads r in
      if full_content = [] then
        (case response_json loads_bytes r of
           Inr data \<Rightarrow> py_get data ''content'' (PyStr [])
         | Inl e \<Rightarrow>
             if e = JSONDecodeError
             then Inl (HTTPException 502
                        (''Invalid JSON response from API: '' @ take 200 (text_of r)))
             else Inl e)
      else Inr (PyStr full_content))"

section \<open>The upstream client: \<open>call_api\<close>\<close>

datatype api_result = StreamingResponse "string list" | Content pyval

text \<open>
  \<open>post\<close> is the request of lines 35 to 50: the response, or the exception the client
  raised. \<open>str_of\<close> is \<open>str(e)\<close>, which the library version decides. Everything from the
  request to the two \<open>return\<close>s is inside \<open>try\<close>, and the handler of line 66 catches
  \<open>Exception\<close>.
\<close>

definition call_api ::
  "(exn \<Rightarrow> string) \<Rightarrow> (string \<Rightarrow> exn + pyval) \<Rightarrow> (string \<Rightarrow> exn + pyval) \<Rightarrow>
     ('p \<Rightarrow> exn + response) \<Rightarrow> 'p \<Rightarrow> bool \<Rightarrow> exn + api_result" where
  "call_api str_of loads loads_bytes post payload is_stream =
     (let attempt =
        (case post payload of
           Inl e \<Rightarrow> Inl e
         | Inr r \<Rightarrow>
             if status_code r \<noteq> 200 then Inl (HTTPException (status_code r) (text_of r))
             else if content r = [] then Inl (HTTPException 502 ''Empty response from API'')
             else if is_stream then Inr (StreamingResponse (generate (aiter_text r)))
             else (case handle_non_stream_response loads loads_bytes r of
                     Inl e \<Rightarrow> Inl e
                   | Inr v \<Rightarrow> Inr (Content v)))
      in case attempt of
           Inl e \<Rightarrow> Inl (HTTPException 500 (str_of e))
         | Inr v \<Rightarrow> Inr v)"

section \<open>The lines of a text\<close>

text \<open>
  The lines of a text that are closed by a newline, and the text after the last newline,
  defined on the whole text with no reference to chunks.
\<close>

fun complete_lines :: "string \<Rightarrow> string \<Rightarrow> string list" where
  "complete_lines cur [] = []"
| "complete_lines cur (c # cs) =
     (if c = CHR ''\<newline>'' then cur # complete_lines [] cs else complete_lines (cur @ [c]) cs)"

definition after_last_newline :: "string \<Rightarrow> string" where
  "after_last_newline s = rev (takeWhile (\<lambda>c. c \<noteq> CHR ''\<newline>'') (rev s))"

abbreviation (input) nl :: char where
  "nl \<equiv> CHR ''\<newline>''"

text \<open>
  What is pending after the text \<open>x\<close> when \<open>cur\<close> was pending before it: the text after
  the last newline of \<open>x\<close>, or all of \<open>cur @ x\<close> when \<open>x\<close> has no newline.
\<close>

definition pending :: "string \<Rightarrow> string \<Rightarrow> string" where
  "pending cur x = (if nl \<in> set x then after_last_newline x else cur @ x)"

text \<open>
  The reassembler alone: the loop with a body that only records the line. The result is
  the buffer and the lines, in order.
\<close>

definition reassemble :: "string list \<Rightarrow> string \<times> string list" where
  "reassemble chunks = for_chunks (\<lambda>lines line. lines @ [line]) chunks []"

text \<open>The upstream text made of the given lines, each closed by a newline.\<close>

definition upstream_text :: "string list \<Rightarrow> string" where
  "upstream_text ls = concat (map (\<lambda>l. l @ ''\<newline>'') ls)"

text \<open>
  A well-formed data line of the upstream: it carries the data prefix once and holds no
  newline.
\<close>

definition well_formed_data_line :: "string \<Rightarrow> bool" where
  "well_formed_data_line l =
     (startswith l ''data: '' \<and> \<not> startswith l ''data: data:'' \<and> nl \<notin> set l)"

section \<open>A model of \<open>json.loads\<close>\<close>

text \<open>
  An executable model of the standard library's decoder with its default settings, used
  for runs on concrete text. It follows \<open>json.decoder\<close> and \<open>json.scanner\<close>: white space is
  space, tab, newline and carriage return; a string may not hold a raw control character;
  numbers follow the decoder's number pattern; the constants \<open>NaN\<close>, \<open>Infinity\<close> and
  \<open>-Infinity\<close> are accepted; a repeated key keeps its first position and takes the last
  value; anything after the value but white space is an error. Every decoding error is a
  \<open>JSONDecodeError\<close>.

  An integer of more than 4300 digits is a \<open>ValueError\<close>, the interpreter's default limit
  on the conversion.

  The model is for \<open>str\<close> input whose decoded strings stay below code point 256 and whose
  nesting stays below the interpreter's recursion limit; outside that range it is not
  the decoder. An escape \<open>\uXXXX\<close> above \<open>00FF\<close> denotes a character that \<open>char\<close> does not
  have, and the model answers \<open>OtherError\<close> where the decoder returns the character. The
  recursion is bounded by fuel, two units per input character and two more, and not by
  the interpreter's recursion limit, so the model still parses input nested more deeply
  than the interpreter accepts; running out of fuel is reported as \<open>RecursionError\<close>.
\<close>

definition json_ws :: "char \<Rightarrow> bool" where
  "json_ws c = (c \<in> set [CHR 0x20, CHR 0x09, CHR 0x0A, CHR 0x0D])"

definition skip_ws :: "string \<Rightarrow> string" where
  "skip_ws s = dropWhile json_ws s"

definition is_digit :: "char \<Rightarrow> bool" where
  "is_digit c = (c \<in> set ''0123456789'')"

text \<open>The position of a character in a list of characters.\<close>

fun index_of :: "char \<Rightarrow> string \<Rightarrow> nat option" where
  "index_of c [] = None"
| "index_of c (x # xs) =
     (if x = c then Some 0 else (case index_of c xs of None \<Rightarrow> None | Some i \<Rightarrow> Some (Suc i)))"

definition digit_value :: "char \<Rightarrow> nat" where
  "digit_value c = (case index_of c ''0123456789'' of None \<Rightarrow> 0 | Some i \<Rightarrow> i)"

definition hex_value :: "char \<Rightarrow> nat option" where
  "hex_value c =
     (case index_of c ''0123456789abcdef'' of
        Some i \<Rightarrow> Some i
      | None \<Rightarrow> (case index_of c ''ABCDEF'' of Some i \<Rightarrow> Some (10 + i) | None \<Rightarrow> None))"

text \<open>\<open>_decode_uXXXX\<close>: the value of four hexadecimal digits.\<close>

definition decode_uXXXX :: "string \<Rightarrow> nat option" where
  "decode_uXXXX s =
     (case map hex_value (take 4 s) of
        [Some a, Some b, Some c, Some d] \<Rightarrow> Some (((a * 16 + b) * 16 + c) * 16 + d)
      | _ \<Rightarrow> None)"

text \<open>The table \<open>BACKSLASH\<close> of the one-character escapes.\<close>

definition backslash :: "char \<Rightarrow> char option" where
  "backslash esc =
     map_of [(CHR 0x22, CHR 0x22), (CHR 0x5C, CHR 0x5C), (CHR ''/'', CHR ''/''),
             (CHR ''b'', CHR 0x08), (CHR ''f'', CHR 0x0C), (CHR ''n'', CHR 0x0A),
             (CHR ''r'', CHR 0x0D), (CHR ''t'', CHR 0x09)] esc"

text \<open>
  \<open>scanstring\<close>, from the character after the opening quote: the decoded string and the
  text after the closing quote.
\<close>

fun scanstring :: "string \<Rightarrow> exn + string \<times> string" where
  "scanstring [] = Inl JSONDecodeError"
| "scanstring (c # cs) =
     (if c = CHR 0x22 then Inr ([], cs)
      else if c = CHR 0x5C then
        (case cs of
           [] \<Rightarrow> Inl JSONDecodeError
         | esc # rest \<Rightarrow>
             if esc = CHR ''u'' then
               (case decode_uXXXX rest of
                  None \<Rightarrow> Inl JSONDecodeError
                | Some uni \<Rightarrow>
                    if uni < 256 then
                      (case scanstring (drop 4 rest) of
                         Inl e \<Rightarrow> Inl e
                       | Inr (s, r) \<Rightarrow> Inr (char_of uni # s, r))
                    else Inl (OtherError ''escape above 00FF''))
             else
               (case backslash esc of
                  None \<Rightarrow> Inl JSONDecodeError
                | Some ch \<Rightarrow>
                    (case scanstring rest of
                       Inl e \<Rightarrow> Inl e
                     | Inr (s, r) \<Rightarrow> Inr (ch # s, r))))
      else if (of_char c :: nat) < 32 then Inl JSONDecodeError
      else
        (case scanstring cs of
           Inl e \<Rightarrow> Inl e
         | Inr (s, r) \<Rightarrow> Inr (c # s, r)))"

text \<open>The value of a list of decimal digits.\<close>

definition digits_value :: "string \<Rightarrow> int" where
  "digits_value ds = foldl (\<lambda>a d. 10 * a + int (digit_value d)) 0 ds"

text \<open>
  The number pattern \<open>(-?(?:0|[1-9]\d*))(\.\d+)?([eE][-+]?\d+)?\<close> at the start of the
  text: an \<open>int\<close> when there is neither fraction nor exponent, a \<open>float\<close> otherwise.
\<close>

definition match_number :: "string \<Rightarrow> exn + pyval \<times> string" where
  "match_number s =
     (let neg = startswith s ''-'';
          s1 = (if neg then tl s else s);
          int_digits =
            (case s1 of
               [] \<Rightarrow> []
             | c # cs \<Rightarrow>
                 if c = CHR ''0'' then [c]
                 else if is_digit c then c # takeWhile is_digit cs
                 else [])
      in if int_digits = [] then Inl JSONDecodeError
         else
           let s2 = drop (length int_digits) s1;
               frac =
                 (case s2 of
                    c # d # ds \<Rightarrow>
                      if c = CHR ''.'' \<and> is_digit d then c # d # takeWhile is_digit ds else []
                  | _ \<Rightarrow> []);
               s3 = drop (length frac) s2;
               expo =
                 (case s3 of
                    [] \<Rightarrow> []
                  | c # cs \<Rightarrow>
                      if c = CHR ''e'' \<or> c = CHR ''E'' then
                        let sign = (case cs of
                                      [] \<Rightarrow> []
                                    | d # ds \<Rightarrow> if d = CHR ''-'' \<or> d = CHR ''+'' then [d] else []);
                            digs = takeWhile is_digit (drop (length sign) cs)
                        in if digs = [] then [] else c # sign @ digs
                      else []);
               s4 = drop (length expo) s3
           in if frac = [] \<and> expo = []
              then (if length int_digits > 4300 then Inl ValueError
                    else Inr (PyInt ((if neg then - 1 else 1) * digits_value int_digits), s4))
              else Inr (PyFloat ((if neg then ''-'' else []) @ int_digits @ frac @ expo), s4))"

text \<open>
  \<open>scan_once\<close>, the array loop and the object loop. \<open>parse_array\<close> starts at an element and
  \<open>parse_object\<close> at a key; the empty array and the empty object are recognised before
  the loops are entered.
\<close>

fun scan_once :: "nat \<Rightarrow> string \<Rightarrow> exn + pyval \<times> string"
  and parse_array :: "nat \<Rightarrow> string \<Rightarrow> pyval list \<Rightarrow> exn + pyval \<times> string"
  and parse_object :: "nat \<Rightarrow> string \<Rightarrow> (string \<times> pyval) list \<Rightarrow> exn + pyval \<times> string"
where
  "scan_once 0 s = Inl RecursionError"
| "scan_once (Suc n) s =
     (case s of
        [] \<Rightarrow> Inl JSONDecodeError
      | c # cs \<Rightarrow>
          if c = CHR 0x22 then
            (case scanstring cs of
               Inl e \<Rightarrow> Inl e
             | Inr (str, rest) \<Rightarrow> Inr (PyStr str, rest))
          else if c = CHR ''{'' then
            (if startswith (skip_ws cs) ''}'' then Inr (PyDict [], tl (skip_ws cs))
             else parse_object n (skip_ws cs) [])
          else if c = CHR ''['' then
            (if startswith (skip_ws cs) '']'' then Inr (PyList [], tl (skip_ws cs))
             else parse_array n (skip_ws cs) [])
          else if startswith s ''null'' then Inr (PyNone, drop 4 s)
          else if startswith s ''true'' then Inr (PyBool True, drop 4 s)
          else if startswith s ''false'' then Inr (PyBool False, drop 5 s)
          else if startswith s ''NaN'' then Inr (PyFloat ''NaN'', drop 3 s)
          else if startswith s ''Infinity'' then Inr (PyFloat ''Infinity'', drop 8 s)
          else if startswith s ''-Infinity'' then Inr (PyFloat ''-Infinity'', drop 9 s)
          else match_number s)"
| "parse_array 0 s acc = Inl RecursionError"
| "parse_array (Suc n) s acc =
     (case scan_once n s of
        Inl e \<Rightarrow> Inl e
      | Inr (v, rest) \<Rightarrow>
          if startswith (skip_ws rest) '']'' then Inr (PyList (acc @ [v]), tl (skip_ws rest))
          else if startswith (skip_ws rest) '',''
          then parse_array n (skip_ws (tl (skip_ws rest))) (acc @ [v])
          else Inl JSONDecodeError)"
| "parse_object 0 s acc = Inl RecursionError"
| "parse_object (Suc n) s acc =
     (case s of
        [] \<Rightarrow> Inl JSONDecodeError
      | c # cs \<Rightarrow>
          if c \<noteq> CHR 0x22 then Inl JSONDecodeError
          else
            (case scanstring cs of
               Inl e \<Rightarrow> Inl e
             | Inr (key, rest) \<Rightarrow>
                 if \<not> startswith (skip_ws rest) '':'' then Inl JSONDecodeError
                 else
                   (case scan_once n (skip_ws (tl (skip_ws rest))) of
                      Inl e \<Rightarrow> Inl e
                    | Inr (v, rest2) \<Rightarrow>
                        if startswith (skip_ws rest2) ''}''
                        then Inr (PyDict (AList.update key v acc), tl (skip_ws rest2))
                        else if startswith (skip_ws rest2) '',''
                        then parse_object n (skip_ws (tl (skip_ws rest2)))
                               (AList.update key v acc)
                        else Inl JSONDecodeError)))"

text \<open>\<open>json.loads\<close>: white space, one value, white space, end of text.\<close>

definition json_loads :: "string \<Rightarrow> exn + pyval" where
  "json_loads s =
     (case scan_once (Suc (Suc (length s + length s))) (skip_ws s) of
        Inl e \<Rightarrow> Inl e
      | Inr (v, rest) \<Rightarrow> if skip_ws rest = [] then Inr v else Inl JSONDecodeError)"

section \<open>The loop is a fold over the lines of the text\<close>

lemma after_last_newline_id: "nl \<notin> set s \<Longrightarrow> after_last_newline s = s"
proof -
  assume "nl \<notin> set s"
  then have "takeWhile (\<lambda>c. c \<noteq> nl) (rev s) = rev s"
    by (intro takeWhile_eq_all_conv[THEN iffD2]) auto
  then show ?thesis unfolding after_last_newline_def by (simp only: rev_rev_ident)
qed

lemma after_last_newline_no_nl: "nl \<notin> set (after_last_newline s)"
  unfolding after_last_newline_def by (auto dest: set_takeWhileD)

lemma after_last_newline_append:
  "after_last_newline (x @ y) = (if nl \<in> set y then after_last_newline y else after_last_newline x @ y)"
proof (cases "nl \<in> set y")
  case True
  then have "takeWhile (\<lambda>c. c \<noteq> nl) (rev y @ rev x) = takeWhile (\<lambda>c. c \<noteq> nl) (rev y)"
    by (intro takeWhile_append1[of nl]) simp_all
  with True show ?thesis by (simp add: after_last_newline_def)
next
  case False
  then have "takeWhile (\<lambda>c. c \<noteq> nl) (rev y @ rev x) = rev y @ takeWhile (\<lambda>c. c \<noteq> nl) (rev x)"
    by (intro takeWhile_append2) auto
  with False show ?thesis by (simp add: after_last_newline_def)
qed

lemma after_last_newline_Cons:
  "after_last_newline (c # cs) = (if nl \<in> set cs then after_last_newline cs else if c = nl then cs else c # cs)"
  using after_last_newline_append[of "[c]" cs]
  by (simp add: after_last_newline_def)

lemma complete_lines_append:
  "complete_lines cur (x @ y) = complete_lines cur x @ complete_lines (pending cur x) y"
  by (induction x arbitrary: cur) (auto simp: pending_def after_last_newline_Cons)

lemma complete_lines_no_nl: "nl \<notin> set s \<Longrightarrow> complete_lines cur s = []"
  by (induction s arbitrary: cur) auto

lemma complete_lines_split:
  "nl \<in> set s \<Longrightarrow> complete_lines cur s =
     (cur @ fst (split_newline s)) # complete_lines [] (snd (split_newline s))"
  by (induction s arbitrary: cur) (auto simp: split_newline_def)

lemma after_last_newline_split:
  "nl \<in> set s \<Longrightarrow> after_last_newline (snd (split_newline s)) = after_last_newline s"
  by (induction s) (auto simp: split_newline_def after_last_newline_Cons after_last_newline_id)

lemma drain_eq:
  "drain body buffer st = (after_last_newline buffer, foldl body st (complete_lines [] buffer))"
proof (induction body buffer st rule: drain.induct)
  case (1 body buffer st)
  show ?case
  proof (cases "nl \<in> set buffer")
    case True
    with 1 show ?thesis
      by (subst drain.simps) (simp add: complete_lines_split after_last_newline_split)
  next
    case False
    then show ?thesis
      by (subst drain.simps) (simp add: complete_lines_no_nl after_last_newline_id)
  qed
qed

lemma complete_lines_cur:
  "nl \<notin> set cur \<Longrightarrow> complete_lines [] (cur @ s) = complete_lines cur s"
  by (simp add: complete_lines_append complete_lines_no_nl pending_def)

lemma fold_drain:
  "nl \<notin> set buf \<Longrightarrow>
   fold (\<lambda>chunk (buffer, st). drain body (buffer @ chunk) st) chunks (buf, st) =
     (after_last_newline (buf @ concat chunks),
      foldl body st (complete_lines [] (buf @ concat chunks)))"
proof (induction chunks arbitrary: buf st)
  case Nil
  then show ?case by (simp add: after_last_newline_id complete_lines_no_nl)
next
  case (Cons chunk chunks)
  have "complete_lines [] (buf @ chunk @ concat chunks) =
        complete_lines [] (buf @ chunk) @ complete_lines [] (after_last_newline (buf @ chunk) @ concat chunks)"
    using complete_lines_append[of "[]" "buf @ chunk" "concat chunks"]
    by (simp add: pending_def complete_lines_cur after_last_newline_no_nl after_last_newline_id)
  moreover have "after_last_newline (after_last_newline (buf @ chunk) @ concat chunks)
        = after_last_newline (buf @ chunk @ concat chunks)"
    using after_last_newline_append[of "buf @ chunk" "concat chunks"]
          after_last_newline_append[of "after_last_newline (buf @ chunk)" "concat chunks"]
    by (simp add: after_last_newline_id after_last_newline_no_nl)
  ultimately show ?case
    using Cons.IH[of "after_last_newline (buf @ chunk)"]
    by (simp add: drain_eq after_last_newline_no_nl)
qed

lemma for_chunks_eq:
  "for_chunks body chunks st0 =
     (after_last_newline (concat chunks), foldl body st0 (complete_lines [] (concat chunks)))"
  unfolding for_chunks_def using fold_drain[of "[]" body chunks st0] by simp

section \<open>What the generator yields\<close>

lemma stream_line_attr:
  "generate_done_processed (stream_line st line) = generate_done_processed st"
  by (simp add: stream_line_def)

lemma stream_content_done: "stream_content ''data: [DONE]'' = ''data: [DONE]''"
  by (simp add: stream_content_def startswith_def)

lemma stream_line_yielded:
  "generate_done_processed st = None \<Longrightarrow>
   yielded (stream_line st line) =
     yielded st @ (if startswith line ''data: '' then [stream_content line @ ''\<newline>\<newline>''] else [])"
  by (simp add: stream_line_def stream_content_done)

lemma foldl_stream_line_attr:
  "generate_done_processed (foldl stream_line st ls) = generate_done_processed st"
  by (induction ls arbitrary: st) (simp_all add: stream_line_attr)

lemma foldl_stream_line:
  "generate_done_processed st = None \<Longrightarrow>
   yielded (foldl stream_line st ls) =
     yielded st @ map (\<lambda>l. stream_content l @ ''\<newline>\<newline>'') (filter (\<lambda>l. startswith l ''data: '') ls)"
proof (induction ls arbitrary: st)
  case Nil
  then show ?case by simp
next
  case (Cons l ls)
  have "generate_done_processed (stream_line st l) = None"
    using Cons.prems by (simp add: stream_line_attr)
  from Cons.IH[OF this] show ?case
    using Cons.prems by (simp add: stream_line_yielded)
qed

lemma generate_eq:
  "generate chunks =
     map (\<lambda>l. stream_content l @ ''\<newline>\<newline>'')
       (filter (\<lambda>l. startswith l ''data: '') (complete_lines [] (concat chunks)))"
  by (simp add: generate_def for_chunks_eq foldl_stream_line gen_init_def)

lemma complete_lines_line:
  "nl \<notin> set l \<Longrightarrow> complete_lines cur (l @ nl # rest) = (cur @ l) # complete_lines [] rest"
  by (induction l arbitrary: cur) auto

lemma complete_lines_upstream_text:
  "\<forall>l \<in> set ls. nl \<notin> set l \<Longrightarrow> complete_lines [] (upstream_text ls) = ls"
  by (induction ls) (simp_all add: upstream_text_def complete_lines_line)

section \<open>Chunk boundaries\<close>

lemma foldl_snoc: "foldl (\<lambda>lines line. lines @ [line]) acc ls = acc @ ls"
  by (induction ls arbitrary: acc) simp_all

lemma reassemble_eq:
  "reassemble chunks = (after_last_newline (concat chunks), complete_lines [] (concat chunks))"
  by (simp add: reassemble_def for_chunks_eq foldl_snoc)

text \<open>
  Claim C6. For a fixed upstream text, every way of cutting it into chunks (empty chunks
  and cuts inside a line included) hands the same lines, in the same order, to the loop
  body, whatever the body is; and after each chunk the buffer is the part of the text
  received so far that follows its last newline (all of it when no newline has come).
\<close>

theorem reassembly_chunk_invariance:
  assumes "concat chunks1 = concat chunks2"
  shows "snd (reassemble chunks1) = snd (reassemble chunks2)
       \<and> for_chunks body chunks1 st0 = for_chunks body chunks2 st0
       \<and> (\<forall>n. fst (reassemble (take n chunks1)) = after_last_newline (concat (take n chunks1)))
       \<and> (\<forall>n. fst (for_chunks body (take n chunks1) st0)
                 = after_last_newline (concat (take n chunks1)))"
  using assms by (simp add: reassemble_eq for_chunks_eq)

theorem reassembly_chunk_invariance_witness:
  "concat [''da'', [], ''ta: a\<newline>data'', '': b\<newline>x''] = concat [''data: a\<newline>data: b\<newline>x'']
   \<and> snd (reassemble [''da'', [], ''ta: a\<newline>data'', '': b\<newline>x''])
       = snd (reassemble [''data: a\<newline>data: b\<newline>x''])
   \<and> snd (reassemble [''data: a\<newline>data: b\<newline>x'']) = [''data: a'', ''data: b'']
   \<and> fst (reassemble (take 3 [''da'', [], ''ta: a\<newline>data'', '': b\<newline>x'']))
       = after_last_newline (concat (take 3 [''da'', [], ''ta: a\<newline>data'', '': b\<newline>x'']))
   \<and> after_last_newline (concat (take 3 [''da'', [], ''ta: a\<newline>data'', '': b\<newline>x''])) = ''data''"
proof -
  have h: "concat [''da'', [], ''ta: a\<newline>data'', '': b\<newline>x''] = concat [''data: a\<newline>data: b\<newline>x'']"
    by simp
  note inst = reassembly_chunk_invariance[OF h, of "\<lambda>lines line. lines @ [line]" "[]"]
  have l: "snd (reassemble [''data: a\<newline>data: b\<newline>x'']) = [''data: a'', ''data: b'']"
    by (simp add: reassemble_eq)
  have a: "after_last_newline (concat (take 3 [''da'', [], ''ta: a\<newline>data'', '': b\<newline>x''])) = ''data''"
    by (simp add: after_last_newline_def numeral_3_eq_3)
  from inst have i1: "snd (reassemble [''da'', [], ''ta: a\<newline>data'', '': b\<newline>x''])
       = snd (reassemble [''data: a\<newline>data: b\<newline>x''])"
    by (rule conjunct1)
  from inst have i3: "\<forall>n. fst (reassemble (take n [''da'', [], ''ta: a\<newline>data'', '': b\<newline>x'']))
       = after_last_newline (concat (take n [''da'', [], ''ta: a\<newline>data'', '': b\<newline>x'']))"
    by blast
  from i3 have i3': "fst (reassemble (take 3 [''da'', [], ''ta: a\<newline>data'', '': b\<newline>x'']))
       = after_last_newline (concat (take 3 [''da'', [], ''ta: a\<newline>data'', '': b\<newline>x'']))"
    by (rule spec)
  from h i1 l i3' a show ?thesis by blast
qed

text \<open>
  Claim C3. An upstream text with the line \<open>data: [DONE]\<close> twice: the generator yields the
  terminal frame twice. The \<open>[DONE]\<close> branch comes before the test of the flag, and the
  flag it sets is a local variable, not the attribute the test reads.
\<close>

theorem repeated_done_forwarded_twice:
  "generate [''data: [DONE]\<newline>data: [DONE]\<newline>'']
     = [''data: [DONE]\<newline>\<newline>'', ''data: [DONE]\<newline>\<newline>'']"
  by (simp add: generate_eq startswith_def stream_content_def)

section \<open>Streaming mode\<close>

lemma stream_content_plain: "\<not> startswith l ''data: data:'' \<Longrightarrow> stream_content l = l"
  by (simp add: stream_content_def)

lemma startswith_done: "startswith ''data: [DONE]'' ''data: ''"
  by (simp add: startswith_def)

text \<open>
  Claim C7. A well-formed upstream text of N data lines and then the terminal marker,
  each closed by a newline and cut into chunks in any way: the generator yields N+1
  frames, the lines in upstream order, each followed by a blank line, one frame per line.
\<close>

theorem streaming_passthrough:
  assumes "\<forall>l \<in> set ls. well_formed_data_line l"
    and "concat chunks = upstream_text (ls @ [''data: [DONE]''])"
  shows "generate chunks = map (\<lambda>l. l @ ''\<newline>\<newline>'') (ls @ [''data: [DONE]''])
       \<and> length (generate chunks) = length ls + 1
       \<and> (\<forall>frame \<in> set (generate chunks). endswith frame ''\<newline>\<newline>'')"
proof -
  have no_nl: "\<forall>l \<in> set (ls @ [''data: [DONE]'']). nl \<notin> set l"
    using assms(1) by (auto simp: well_formed_data_line_def)
  have keep: "filter (\<lambda>l. startswith l ''data: '') ls = ls"
    using assms(1) by (simp add: well_formed_data_line_def)
  have same: "map (\<lambda>l. stream_content l @ ''\<newline>\<newline>'') ls = map (\<lambda>l. l @ ''\<newline>\<newline>'') ls"
    using assms(1) by (simp add: well_formed_data_line_def stream_content_plain)
  have eq: "generate chunks = map (\<lambda>l. l @ ''\<newline>\<newline>'') (ls @ [''data: [DONE]''])"
    unfolding generate_eq assms(2) complete_lines_upstream_text[OF no_nl]
    by (simp add: keep same startswith_done stream_content_done)
  show ?thesis
    unfolding eq by (auto simp: endswith_def)
qed

theorem streaming_passthrough_witness:
  \<open>well_formed_data_line ''data: {"a":1}'' \<and> well_formed_data_line ''data: {"b":2}''
   \<and> concat [''data: {"a"'', '':1}\<newline>data: {"b":2}\<newline>da'', ''ta: [DONE]\<newline>'']
       = upstream_text ([''data: {"a":1}'', ''data: {"b":2}''] @ [''data: [DONE]''])
   \<and> generate [''data: {"a"'', '':1}\<newline>data: {"b":2}\<newline>da'', ''ta: [DONE]\<newline>'']
       = [''data: {"a":1}\<newline>\<newline>'', ''data: {"b":2}\<newline>\<newline>'', ''data: [DONE]\<newline>\<newline>'']\<close>
proof -
  have h1: \<open>\<forall>l \<in> set [''data: {"a":1}'', ''data: {"b":2}'']. well_formed_data_line l\<close>
    by (simp add: well_formed_data_line_def startswith_def)
  have h2: \<open>concat [''data: {"a"'', '':1}\<newline>data: {"b":2}\<newline>da'', ''ta: [DONE]\<newline>'']
       = upstream_text ([''data: {"a":1}'', ''data: {"b":2}''] @ [''data: [DONE]''])\<close>
    by (simp add: upstream_text_def)
  from streaming_passthrough[OF h1 h2] h1 h2 show ?thesis
    by simp
qed

text \<open>
  Claim C10. Lines that arrive after a \<open>data: [DONE]\<close> line are treated as before it:
  each one that starts with the data prefix is yielded as a frame, in order, after the
  terminal frame, until the upstream text ends.
\<close>

theorem relay_continues_after_done:
  assumes "\<forall>l \<in> set (before @ after). nl \<notin> set l"
    and "concat chunks = upstream_text (before @ ''data: [DONE]'' # after)"
  shows "generate chunks =
           generate [upstream_text before] @ ''data: [DONE]\<newline>\<newline>'' #
           map (\<lambda>l. stream_content l @ ''\<newline>\<newline>'') (filter (\<lambda>l. startswith l ''data: '') after)"
proof -
  have all: "\<forall>l \<in> set (before @ ''data: [DONE]'' # after). nl \<notin> set l"
    using assms(1) by auto
  have bef: "\<forall>l \<in> set before. nl \<notin> set l"
    using assms(1) by auto
  show ?thesis
    unfolding generate_eq assms(2) complete_lines_upstream_text[OF all]
    by (simp add: complete_lines_upstream_text[OF bef] startswith_done stream_content_done)
qed

theorem relay_continues_after_done_witness:
  \<open>nl \<notin> set ''data: {"a":1}'' \<and> nl \<notin> set ''data: {"b":2}'' \<and> nl \<notin> set ''noise''
   \<and> concat [''data: {"a":1}\<newline>data: [DONE]\<newline>'', ''data: {"b":2}\<newline>noise\<newline>'']
       = upstream_text ([''data: {"a":1}''] @ ''data: [DONE]'' # [''data: {"b":2}'', ''noise''])
   \<and> generate [''data: {"a":1}\<newline>data: [DONE]\<newline>'', ''data: {"b":2}\<newline>noise\<newline>'']
       = [''data: {"a":1}\<newline>\<newline>'', ''data: [DONE]\<newline>\<newline>'', ''data: {"b":2}\<newline>\<newline>'']\<close>
proof -
  have h1: \<open>\<forall>l \<in> set ([''data: {"a":1}''] @ [''data: {"b":2}'', ''noise'']). nl \<notin> set l\<close>
    by simp
  have h2: \<open>concat [''data: {"a":1}\<newline>data: [DONE]\<newline>'', ''data: {"b":2}\<newline>noise\<newline>'']
       = upstream_text ([''data: {"a":1}''] @ ''data: [DONE]'' # [''data: {"b":2}'', ''noise''])\<close>
    by (simp add: upstream_text_def)
  have g: \<open>generate [upstream_text [''data: {"a":1}'']] = [''data: {"a":1}\<newline>\<newline>'']\<close>
    by (simp add: generate_eq upstream_text_def startswith_def stream_content_def)
  from relay_continues_after_done[OF h1 h2] h1 h2 g show ?thesis
    by (simp add: startswith_def stream_content_def)
qed

section \<open>Prefix repair\<close>

lemma startswithD: "startswith s p \<Longrightarrow> s = p @ drop (length p) s"
  unfolding startswith_def by (metis append_take_drop_id)

text \<open>
  Claim C9. A line that starts with the doubled prefix \<open>data: data:\<close> loses one prefix
  layer in both modes. In streaming mode the content yielded is the line without its
  first six characters, which still starts with \<open>data:\<close>. In buffered mode the payload is
  the payload of that shorter line. The line \<open>data: data: {"x":1}\<close> becomes
  \<open>data: {"x":1}\<close> in streaming mode and has the payload \<open>{"x":1}\<close> of the line
  \<open>data: {"x":1}\<close> in buffered mode.
\<close>

theorem doubled_prefix_stripped_once:
  assumes "startswith line ''data: data:''"
  shows \<open>stream_content line = drop 6 line
       \<and> startswith (drop 6 line) ''data:''
       \<and> yielded (stream_line gen_init line) = [drop 6 line @ ''\<newline>\<newline>'']
       \<and> strip_prefixes line = (True, sub_data_prefix (drop 6 line))
       \<and> stream_content ''data: data: {"x":1}'' = ''data: {"x":1}''
       \<and> strip_prefixes ''data: data: {"x":1}'' = (True, ''{"x":1}'')
       \<and> normalize_payload ''data: data: {"x":1}'' = Some ''{"x":1}''
       \<and> normalize_payload ''data: {"x":1}'' = Some ''{"x":1}''\<close>
proof -
  obtain rest where line: "line = ''data: data:'' @ rest"
    using startswithD[OF assms] by blast
  have c: "stream_content line = drop 6 line"
    by (simp add: line stream_content_def sub_double_prefix_def startswith_def isspace_def)
  have s: "startswith (drop 6 line) ''data:''"
    by (simp add: line startswith_def)
  have y: "yielded (stream_line gen_init line) = [drop 6 line @ ''\<newline>\<newline>'']"
    unfolding stream_line_def c[symmetric]
    by (simp add: line startswith_def gen_init_def)
  have p: "strip_prefixes line = (True, sub_data_prefix (drop 6 line))"
    by (simp add: line strip_prefixes_def sub_data_prefix_def startswith_def isspace_def)
  have e1: \<open>stream_content ''data: data: {"x":1}'' = ''data: {"x":1}''\<close>
    by (simp add: stream_content_def sub_double_prefix_def startswith_def isspace_def)
  have e2: \<open>strip_prefixes ''data: data: {"x":1}'' = (True, ''{"x":1}'')\<close>
    by (simp add: strip_prefixes_def sub_data_prefix_def startswith_def isspace_def)
  have e3: \<open>normalize_payload ''data: data: {"x":1}'' = Some ''{"x":1}''\<close>
    by (simp add: normalize_payload_def prefix_repair_def e2 brace_repair_def final_repair_def
        strip_def startswith_def endswith_def isspace_def)
  have e4: \<open>normalize_payload ''data: {"x":1}'' = Some ''{"x":1}''\<close>
    by (simp add: normalize_payload_def prefix_repair_def strip_prefixes_def sub_data_prefix_def
        final_repair_def strip_def startswith_def endswith_def isspace_def)
  from c s y p e1 e2 e3 e4 show ?thesis by simp
qed

theorem doubled_prefix_stripped_once_witness:
  \<open>startswith ''data: data: data: {"x":1}'' ''data: data:''
   \<and> stream_content ''data: data: data: {"x":1}'' = ''data: data: {"x":1}''
   \<and> strip_prefixes ''data: data: data: {"x":1}'' = (True, ''data: {"x":1}'')\<close>
proof -
  have h: \<open>startswith ''data: data: data: {"x":1}'' ''data: data:''\<close>
    by (simp add: startswith_def)
  have d: \<open>sub_data_prefix (drop 6 ''data: data: data: {"x":1}'') = ''data: {"x":1}''\<close>
    by (simp add: sub_data_prefix_def startswith_def isspace_def)
  from doubled_prefix_stripped_once[OF h] h d show ?thesis
    by simp
qed

section \<open>The upstream client\<close>

text \<open>
  Claim C1. The upstream answers 404 with the body \<open>not found\<close>: the \<open>HTTPException\<close>
  raised at line 53 with the upstream's status and body is caught by the handler of line
  66, and \<open>call_api\<close> fails with status 500 and the detail \<open>str(e)\<close>.
\<close>

theorem upstream_status_replaced_by_500:
  "call_api str_of loads loads_bytes
     (\<lambda>p. Inr \<lparr>status_code = 404, content = ''not found'', aiter_text = [''not found'']\<rparr>)
     payload is_stream
     = Inl (HTTPException 500 (str_of (HTTPException 404 ''not found'')))"
  by (simp add: call_api_def text_of_def)

text \<open>
  Claim C2. The upstream answers 200 with an empty body: the \<open>HTTPException\<close> raised at
  line 57 with status 502 is caught by the handler of line 66, and \<open>call_api\<close> fails with
  status 500 and the detail \<open>str(e)\<close>.
\<close>

theorem empty_body_replaced_by_500:
  "call_api str_of loads loads_bytes
     (\<lambda>p. Inr \<lparr>status_code = 200, content = [], aiter_text = []\<rparr>) payload is_stream
     = Inl (HTTPException 500 (str_of (HTTPException 502 ''Empty response from API'')))"
  by (simp add: call_api_def text_of_def)

section \<open>Buffered mode\<close>

lemma accumulated_eq:
  "accumulated loads r =
     foldl (buffered_line loads) [] (complete_lines [] (concat (aiter_text r)))"
  by (simp add: accumulated_def for_chunks_eq)

subsection \<open>White space and braces\<close>

lemma endswith_single: "endswith s [d] = (s \<noteq> [] \<and> last s = d)"
  by (cases s rule: rev_cases) (simp_all add: endswith_def)

lemma startswith_single: "startswith s [d] = (s \<noteq> [] \<and> hd s = d)"
  by (cases s) (simp_all add: startswith_def)

lemma strip_Nil: "strip [] = []"
  by (simp add: strip_def)

lemma strip_Cons_nonspace:
  "\<not> isspace c \<Longrightarrow> strip (c # q) = c # rev (dropWhile isspace (rev q))"
  by (simp add: strip_def dropWhile_append)

lemma strip_Cons_nonspace':
  "\<not> isspace c \<Longrightarrow> rev (dropWhile isspace (rev (c # q))) = strip (c # q)"
  by (simp add: strip_def)

lemma strip_snoc_nonspace:
  "\<not> isspace c \<Longrightarrow> strip (x @ [c]) \<noteq> [] \<and> last (strip (x @ [c])) = c"
  by (simp add: strip_def dropWhile_append)

lemma dropWhile_isspace_cases:
  obtains "dropWhile isspace q = []"
  | c t where "dropWhile isspace q = c # t" "\<not> isspace c"
proof (cases "dropWhile isspace q")
  case Nil
  then show ?thesis by (rule that(1))
next
  case (Cons c t)
  then have "\<not> isspace c"
    using hd_dropWhile[of isspace q] by simp
  with Cons show ?thesis by (rule that(2))
qed

lemma brace_not_space: "\<not> isspace CHR ''{''" "\<not> isspace CHR ''}''"
  by (simp_all add: isspace_def)

lemma brace_repair_eq:
  assumes "p = dropWhile isspace q"
  shows "brace_repair p =
           (if startswith p ''{'' then [] else ''{'') @ p @
           (if endswith (strip p) ''}'' then [] else ''}'')"
proof (cases rule: dropWhile_isspace_cases[of q])
  case 1
  then have "p = []" using assms by simp
  then show ?thesis
    by (simp add: brace_repair_def strip_Nil startswith_single endswith_single
        strip_Cons_nonspace brace_not_space)
next
  case (2 c t)
  then have p: "p = c # t" using assms by simp
  show ?thesis
  proof (cases "c = CHR ''{''")
    case True
    then show ?thesis
      using 2(2) by (simp add: p brace_repair_def startswith_single strip_Cons_nonspace)
  next
    case False
    have "strip (CHR ''{'' # c # t) = CHR ''{'' # strip (c # t)"
      using 2(2) by (simp add: strip_Cons_nonspace brace_not_space dropWhile_append)
    moreover have "strip (c # t) \<noteq> []"
      using 2(2) by (simp add: strip_Cons_nonspace)
    ultimately show ?thesis
      using False 2(2)
      by (simp add: p brace_repair_def startswith_single endswith_single strip_Cons_nonspace)
  qed
qed

lemma brace_repair_closed: "endswith (strip (brace_repair p)) ''}''"
proof -
  let ?j = "if \<not> startswith (strip p) ''{'' then ''{'' @ p else p"
  show ?thesis
  proof (cases "endswith (strip ?j) ''}''")
    case True
    then show ?thesis by (simp add: brace_repair_def Let_def)
  next
    case False
    then have "brace_repair p = ?j @ ''}''"
      by (simp add: brace_repair_def Let_def)
    then show ?thesis
      using strip_snoc_nonspace[OF brace_not_space(2), of ?j]
      by (simp add: endswith_single)
  qed
qed

lemma final_repair_closed: "endswith (strip j) ''}'' \<Longrightarrow> final_repair j = Some (strip j)"
  by (auto simp: final_repair_def Let_def endswith_single)

lemma strip_prefixes_True_payload:
  "strip_prefixes line = (True, p) \<Longrightarrow> \<exists>q. p = dropWhile isspace q"
  by (auto simp: strip_prefixes_def sub_data_prefix_def Let_def split: if_splits)

lemma normalize_payload_doubled:
  assumes "strip_prefixes line = (True, p)" and "strip p \<noteq> ''[DONE]''"
  shows "normalize_payload line =
           Some (strip ((if startswith p ''{'' then [] else ''{'') @ p @
                        (if endswith (strip p) ''}'' then [] else ''}'')))"
proof -
  obtain q where q: "p = dropWhile isspace q"
    using strip_prefixes_True_payload[OF assms(1)] by blast
  have "normalize_payload line = final_repair (brace_repair p)"
    using assms by (simp add: normalize_payload_def prefix_repair_def)
  also have "\<dots> = Some (strip (brace_repair p))"
    by (rule final_repair_closed[OF brace_repair_closed])
  finally show ?thesis
    by (simp only: brace_repair_eq[OF q])
qed

subsection \<open>Runs on concrete lines\<close>

lemmas json_eval = json_loads_def skip_ws_def json_ws_def startswith_def is_digit_def
  match_number_def digits_value_def digit_value_def

lemmas line_eval = normalize_payload_def prefix_repair_def strip_prefixes_def
  sub_data_prefix_def brace_repair_def final_repair_def strip_def startswith_def
  endswith_def isspace_def

lemmas delta_eval = accumulate_delta_def then_do_def py_contains_def py_getitem_def
  py_len_def py_getitem0_def py_get_def py_str_add_def

lemma loads_delta_Hel: \<open>json_loads ''{"choices":[{"delta":{"content":"Hel"}}]}''
  = Inr (PyDict [(''choices'', PyList [PyDict [(''delta'', PyDict [(''content'', PyStr ''Hel'')])]])])\<close>
  by (simp add: json_eval)

lemma loads_delta_lo: \<open>json_loads ''{"choices":[{"delta":{"content":"lo"}}]}''
  = Inr (PyDict [(''choices'', PyList [PyDict [(''delta'', PyDict [(''content'', PyStr ''lo'')])]])])\<close>
  by (simp add: json_eval)

lemma loads_delta_hi: \<open>json_loads ''{"choices":[{"delta":{"content":"hi"}}]}''
  = Inr (PyDict [(''choices'', PyList [PyDict [(''delta'', PyDict [(''content'', PyStr ''hi'')])]])])\<close>
  by (simp add: json_eval)

lemma accumulate_delta_content:
  "accumulate_delta
     (PyDict [(''choices'', PyList [PyDict [(''delta'', PyDict [(''content'', PyStr c)])]])])
     full_content = Inr (full_content @ c)"
  by (simp add: delta_eval)

lemma normalize_Hel: \<open>normalize_payload ''data: {"choices":[{"delta":{"content":"Hel"}}]}''
  = Some ''{"choices":[{"delta":{"content":"Hel"}}]}''\<close>
  by (simp add: line_eval)

lemma normalize_lo: \<open>normalize_payload ''data: {"choices":[{"delta":{"content":"lo"}}]}''
  = Some ''{"choices":[{"delta":{"content":"lo"}}]}''\<close>
  by (simp add: line_eval)

lemma line_Hel: \<open>buffered_line json_loads full_content
    ''data: {"choices":[{"delta":{"content":"Hel"}}]}'' = full_content @ ''Hel''\<close>
  by (simp add: buffered_line_def normalize_Hel extract_delta_def loads_delta_Hel
      accumulate_delta_content startswith_def)

lemma line_lo: \<open>buffered_line json_loads full_content
    ''data: {"choices":[{"delta":{"content":"lo"}}]}'' = full_content @ ''lo''\<close>
  by (simp add: buffered_line_def normalize_lo extract_delta_def loads_delta_lo
      accumulate_delta_content startswith_def)

lemma line_done: "buffered_line loads full_content ''data: [DONE]'' = full_content"
  by (simp add: buffered_line_def)

text \<open>
  Claim C8. The upstream text is the two delta lines for \<open>Hel\<close> and \<open>lo\<close> and then
  \<open>data: [DONE]\<close>, each closed by a newline, cut into chunks in any way:
  \<open>handle_non_stream_response\<close> returns the string \<open>Hello\<close>.
\<close>

theorem buffered_hello:
  assumes \<open>concat (aiter_text r) =
             upstream_text [''data: {"choices":[{"delta":{"content":"Hel"}}]}'',
                            ''data: {"choices":[{"delta":{"content":"lo"}}]}'',
                            ''data: [DONE]'']\<close>
  shows "handle_non_stream_response json_loads loads_bytes r = Inr (PyStr ''Hello'')"
proof -
  have \<open>complete_lines [] (concat (aiter_text r)) =
          [''data: {"choices":[{"delta":{"content":"Hel"}}]}'',
           ''data: {"choices":[{"delta":{"content":"lo"}}]}'',
           ''data: [DONE]'']\<close>
    unfolding assms by (rule complete_lines_upstream_text) simp
  then have "accumulated json_loads r = ''Hello''"
    by (simp add: accumulated_eq line_Hel line_lo line_done)
  then show ?thesis
    by (simp add: handle_non_stream_response_def)
qed

theorem buffered_hello_witness:
  \<open>concat [''data: {"choices":[{"delta":{"content":"Hel"}}]}\<newline>data: {"cho'',
           ''ices":[{"delta":{"content":"lo"}}]}\<newline>'', ''data: [DONE]\<newline>'']
     = upstream_text [''data: {"choices":[{"delta":{"content":"Hel"}}]}'',
                      ''data: {"choices":[{"delta":{"content":"lo"}}]}'',
                      ''data: [DONE]'']
   \<and> handle_non_stream_response json_loads json_loads
        \<lparr>status_code = 200,
         content = upstream_text [''data: {"choices":[{"delta":{"content":"Hel"}}]}'',
                                  ''data: {"choices":[{"delta":{"content":"lo"}}]}'',
                                  ''data: [DONE]''],
         aiter_text = [''data: {"choices":[{"delta":{"content":"Hel"}}]}\<newline>data: {"cho'',
                       ''ices":[{"delta":{"content":"lo"}}]}\<newline>'', ''data: [DONE]\<newline>'']\<rparr>
     = Inr (PyStr ''Hello'')\<close>
proof -
  have h: \<open>concat (aiter_text \<lparr>status_code = 200,
         content = upstream_text [''data: {"choices":[{"delta":{"content":"Hel"}}]}'',
                                  ''data: {"choices":[{"delta":{"content":"lo"}}]}'',
                                  ''data: [DONE]''],
         aiter_text = [''data: {"choices":[{"delta":{"content":"Hel"}}]}\<newline>data: {"cho'',
                       ''ices":[{"delta":{"content":"lo"}}]}\<newline>'', ''data: [DONE]\<newline>'']\<rparr>)
     = upstream_text [''data: {"choices":[{"delta":{"content":"Hel"}}]}'',
                      ''data: {"choices":[{"delta":{"content":"lo"}}]}'',
                      ''data: [DONE]'']\<close>
    by (simp add: upstream_text_def)
  from buffered_hello[OF h, of json_loads] h show ?thesis
    by simp
qed

lemma loads_no_open: \<open>json_loads ''"choices":[{"delta":{"content":"hi"}}]'' = Inl JSONDecodeError\<close>
  by (simp add: json_eval)

lemma loads_no_open_retry: \<open>json_loads ''{"delta":{"content":"hi"}}]'' = Inl JSONDecodeError\<close>
  by (simp add: json_eval)

lemma normalize_single_hi: \<open>normalize_payload ''data: "choices":[{"delta":{"content":"hi"}}]''
  = Some ''"choices":[{"delta":{"content":"hi"}}]''\<close>
  by (simp add: line_eval)

lemma normalize_doubled_hi:
  \<open>normalize_payload ''data: data: "choices":[{"delta":{"content":"hi"}}]''
  = Some ''{"choices":[{"delta":{"content":"hi"}}]}''\<close>
  by (simp add: line_eval)

text \<open>
  Claim C4, as stated, fails on a line with a single prefix: the payload
  \<open>"choices":[{"delta":{"content":"hi"}}]\<close> reaches \<open>json.loads\<close> with no brace added, both
  parse attempts fail, and the line yields no fragment.
\<close>

theorem single_prefix_not_brace_repaired:
  \<open>normalize_payload ''data: "choices":[{"delta":{"content":"hi"}}]''
     = Some ''"choices":[{"delta":{"content":"hi"}}]''
   \<and> buffered_line json_loads [] ''data: "choices":[{"delta":{"content":"hi"}}]'' = []\<close>
  by (simp add: normalize_single_hi buffered_line_def extract_delta_def loads_no_open
      loads_no_open_retry strip_def startswith_def isspace_def)

text \<open>
  Claim C4, amended. The brace repair belongs to the branch for a doubled prefix. For a
  line whose prefix is doubled and whose payload \<open>p\<close>, after both prefixes are removed, is
  not \<open>[DONE]\<close>: a \<open>{\<close> is put in front when \<open>p\<close> does not start with one, a \<open>}\<close> is put
  behind when \<open>p\<close>, trailing white space aside, does not end with one, and the result,
  stripped, is what \<open>json.loads\<close> gets. The line
  \<open>data: data: "choices":[{"delta":{"content":"hi"}}]\<close> is repaired to
  \<open>{"choices":[{"delta":{"content":"hi"}}]}\<close> and yields the fragment \<open>hi\<close>.
\<close>

theorem brace_repair_doubled_prefix:
  assumes "strip_prefixes line = (True, p)" and "strip p \<noteq> ''[DONE]''"
  shows \<open>normalize_payload line =
           Some (strip ((if startswith p ''{'' then [] else ''{'') @ p @
                        (if endswith (strip p) ''}'' then [] else ''}'')))
       \<and> normalize_payload ''data: data: "choices":[{"delta":{"content":"hi"}}]''
           = Some ''{"choices":[{"delta":{"content":"hi"}}]}''
       \<and> buffered_line json_loads [] ''data: data: "choices":[{"delta":{"content":"hi"}}]''
           = ''hi''\<close>
proof -
  have \<open>buffered_line json_loads [] ''data: data: "choices":[{"delta":{"content":"hi"}}]''
           = ''hi''\<close>
    by (simp add: buffered_line_def normalize_doubled_hi extract_delta_def loads_delta_hi
        accumulate_delta_content startswith_def)
  with normalize_payload_doubled[OF assms] normalize_doubled_hi show ?thesis
    by simp
qed

theorem brace_repair_doubled_prefix_witness:
  \<open>strip_prefixes ''data: data: "choices":[{"delta":{"content":"hi"}}]''
     = (True, ''"choices":[{"delta":{"content":"hi"}}]'')
   \<and> strip ''"choices":[{"delta":{"content":"hi"}}]'' \<noteq> ''[DONE]''
   \<and> normalize_payload ''data: data: "choices":[{"delta":{"content":"hi"}}]''
       = Some (strip (''{'' @ ''"choices":[{"delta":{"content":"hi"}}]'' @ ''}''))\<close>
proof -
  have h1: \<open>strip_prefixes ''data: data: "choices":[{"delta":{"content":"hi"}}]''
     = (True, ''"choices":[{"delta":{"content":"hi"}}]'')\<close>
    by (simp add: strip_prefixes_def sub_data_prefix_def startswith_def isspace_def)
  have h2: \<open>strip ''"choices":[{"delta":{"content":"hi"}}]'' \<noteq> ''[DONE]''\<close>
    by (simp add: strip_def isspace_def)
  have c: \<open>\<not> startswith ''"choices":[{"delta":{"content":"hi"}}]'' ''{''
       \<and> \<not> endswith (strip ''"choices":[{"delta":{"content":"hi"}}]'') ''}''\<close>
    by (simp add: startswith_def endswith_def strip_def isspace_def)
  from brace_repair_doubled_prefix[OF h1 h2] h1 h2 c show ?thesis
    by simp
qed

subsection \<open>The fallback on the whole body\<close>

lemma fallback_returns_content:
  assumes "accumulated loads r = []" and "loads_bytes (content r) = Inr (PyDict d)"
  shows "handle_non_stream_response loads loads_bytes r
           = Inr (case map_of d ''content'' of None \<Rightarrow> PyStr [] | Some v \<Rightarrow> v)"
  using assms by (simp add: handle_non_stream_response_def response_json_def py_get_def)

lemma fallback_not_an_object:
  assumes "accumulated loads r = []" and "loads_bytes (content r) = Inr v"
    and "\<forall>d. v \<noteq> PyDict d"
  shows "handle_non_stream_response loads loads_bytes r = Inl AttributeError"
  using assms
  by (cases v) (simp_all add: handle_non_stream_response_def response_json_def py_get_def)

lemma fallback_raises_502:
  assumes "accumulated loads r = []" and "loads_bytes (content r) = Inl JSONDecodeError"
  shows "handle_non_stream_response loads loads_bytes r
           = Inl (HTTPException 502
                   (''Invalid JSON response from API: '' @ take 200 (text_of r)))"
  using assms by (simp add: handle_non_stream_response_def response_json_def)

text \<open>
  Claim C5. The upstream answers 200 with a body that yields no fragment and is not
  JSON. \<open>handle_non_stream_response\<close> raises \<open>HTTPException\<close> with status 502 and a detail
  that ends with the first 200 characters of the text, as line 275 means to. The relay
  operation does not fail with it: the exception is raised inside the \<open>try\<close> of \<open>call_api\<close>
  and the handler of line 66 replaces it by one with status 500 and the detail \<open>str(e)\<close>.
\<close>

theorem fallback_error_replaced_by_500:
  assumes "post payload = Inr r"
    and "status_code r = 200"
    and "content r \<noteq> []"
    and "accumulated loads r = []"
    and "loads_bytes (content r) = Inl JSONDecodeError"
  shows "handle_non_stream_response loads loads_bytes r
           = Inl (HTTPException 502
                   (''Invalid JSON response from API: '' @ take 200 (text_of r)))
       \<and> call_api str_of loads loads_bytes post payload False
           = Inl (HTTPException 500
                   (str_of (HTTPException 502
                     (''Invalid JSON response from API: '' @ take 200 (text_of r)))))"
  using assms
  by (simp add: call_api_def fallback_raises_502)

theorem fallback_error_replaced_by_500_witness:
  \<open>status_code \<lparr>status_code = 200, content = ''data: bad text\<newline>'',
                  aiter_text = [''data: bad text\<newline>'']\<rparr> = 200
   \<and> content \<lparr>status_code = 200, content = ''data: bad text\<newline>'',
               aiter_text = [''data: bad text\<newline>'']\<rparr> \<noteq> []
   \<and> accumulated json_loads \<lparr>status_code = 200, content = ''data: bad text\<newline>'',
                               aiter_text = [''data: bad text\<newline>'']\<rparr> = []
   \<and> json_loads (content \<lparr>status_code = 200, content = ''data: bad text\<newline>'',
                           aiter_text = [''data: bad text\<newline>'']\<rparr>) = Inl JSONDecodeError
   \<and> handle_non_stream_response json_loads json_loads
        \<lparr>status_code = 200, content = ''data: bad text\<newline>'',
         aiter_text = [''data: bad text\<newline>'']\<rparr>
       = Inl (HTTPException 502 ''Invalid JSON response from API: data: bad text\<newline>'')
   \<and> call_api (\<lambda>e. case e of HTTPException s d \<Rightarrow> d | _ \<Rightarrow> []) json_loads json_loads
        (\<lambda>p. Inr \<lparr>status_code = 200, content = ''data: bad text\<newline>'',
                    aiter_text = [''data: bad text\<newline>'']\<rparr>) () False
       = Inl (HTTPException 500 ''Invalid JSON response from API: data: bad text\<newline>'')\<close>
proof -
  let ?r = \<open>\<lparr>status_code = 200, content = ''data: bad text\<newline>'',
             aiter_text = [''data: bad text\<newline>'']\<rparr>\<close>
  have s: "status_code ?r = 200"
    by simp
  have c: "content ?r \<noteq> []"
    by simp
  have bad: "json_loads ''bad text'' = Inl JSONDecodeError"
    by (simp add: json_eval)
  have a: "accumulated json_loads ?r = []"
    by (simp add: accumulated_eq buffered_line_def line_eval extract_delta_def bad)
  have l: "json_loads (content ?r) = Inl JSONDecodeError"
    by (simp add: json_eval)
  have t: "take 200 (text_of ?r) = ''data: bad text\<newline>''"
    by (simp add: text_of_def)
  have inst: "handle_non_stream_response json_loads json_loads ?r
           = Inl (HTTPException 502
                   (''Invalid JSON response from API: '' @ take 200 (text_of ?r)))
       \<and> call_api (\<lambda>e. case e of HTTPException s d \<Rightarrow> d | _ \<Rightarrow> []) json_loads json_loads
            (\<lambda>p. Inr ?r) () False
           = Inl (HTTPException 500
                   ((\<lambda>e. case e of HTTPException s d \<Rightarrow> d | _ \<Rightarrow> [])
                     (HTTPException 502
                       (''Invalid JSON response from API: '' @ take 200 (text_of ?r)))))"
    by (rule fallback_error_replaced_by_500[where post = "\<lambda>p::unit. Inr ?r" and payload = "()"])
      (simp, rule s, rule c, rule a, rule l)
  from inst have r1: "handle_non_stream_response json_loads json_loads ?r
       = Inl (HTTPException 502 ''Invalid JSON response from API: data: bad text\<newline>'')"
    by (simp add: t)
  from inst have r2: "call_api (\<lambda>e. case e of HTTPException s d \<Rightarrow> d | _ \<Rightarrow> []) json_loads
        json_loads (\<lambda>p. Inr ?r) () False
       = Inl (HTTPException 500 ''Invalid JSON response from API: data: bad text\<newline>'')"
    by (simp add: t)
  from s c a l r1 r2 show ?thesis by blast
qed

end
